theory Spec2Isabelle
  imports Main "HOL-Library.Word"
begin

unbundle bit_operations_syntax

section \<open>Values, errors and the statement context\<close>

text \<open>
  The builtins of \<^verbatim>\<open>expression/builtin_encryption.go\<close> work on Go strings, which are
  byte sequences, and on \<^verbatim>\<open>int64\<close>. An argument expression, once evaluated, yields the
  triple \<^verbatim>\<open>(value, isNull, err)\<close>; every evaluator returns such a triple itself, so a
  builtin can be the argument of another one. An evaluator takes the triples of its
  arguments. It reads them in order and returns at the first one that is NULL or has an
  error, so the triple of a later argument then plays no part, as an expression that is
  not evaluated. The number of arguments is the one \<^verbatim>\<open>getFunction\<close> has verified.
\<close>

type_synonym byte = "8 word"
type_synonym bytes = "byte list"
type_synonym int64 = "64 word"

datatype error =
    ErrOverflow string string
  | errZlibZData
  | errDeprecatedSyntaxNoReplacement string
  | ErrorsNew string
  | ErrExternal nat

text \<open>
  \<^verbatim>\<open>ErrOverflow a b\<close> is \<^verbatim>\<open>types.ErrOverflow.GenByArgs(a, b)\<close>, \<^verbatim>\<open>ErrorsNew m\<close> is
  \<^verbatim>\<open>errors.New(m)\<close>, and \<^verbatim>\<open>ErrExternal n\<close> stands for an error raised outside this file
  (by an argument expression or by a library call).
\<close>

datatype panic = IndexOutOfRange

type_synonym 'a ret = "'a \<times> bool \<times> error option"

text \<open>
  \<^verbatim>\<open>errors.Trace\<close> annotates an error with the place of the call and maps \<^verbatim>\<open>nil\<close> to
  \<^verbatim>\<open>nil\<close>; the annotation does not change which error it is.
\<close>

definition Trace :: "error option \<Rightarrow> error option" where
  "Trace e = e"

text \<open>
  The statement context \<^verbatim>\<open>b.ctx.GetSessionVars().StmtCtx\<close>: of its state, the evaluators
  touch the warnings only, and only through \<^verbatim>\<open>AppendWarning\<close>. It is the list of the
  warnings handed to \<^verbatim>\<open>AppendWarning\<close> so far, the oldest first.
\<close>

record stmt_ctx =
  warnings :: "error list"

text \<open>
  Modelled from the spec: \<^verbatim>\<open>StatementContext.AppendWarning\<close> lives in the statement
  context package; the spec describes it as the one operation "append warning with a
  typed diagnostic".
\<close>

definition AppendWarning :: "error \<Rightarrow> stmt_ctx \<Rightarrow> stmt_ctx" where
  "AppendWarning w sc = sc\<lparr>warnings := warnings sc @ [w]\<rparr>"

section \<open>Library calls\<close>

text \<open>
  The hash functions, the random source, the zlib writer and reader and the AES block
  cipher belong to the Go standard library. Each is a field of the record below, a
  function of the data it is given:
  \<^item> \<open>md5_Sum\<close> is \<^verbatim>\<open>md5.Sum\<close>;
  \<^item> \<open>hash_Write h data\<close> is the error of \<^verbatim>\<open>hasher.Write(data)\<close> on a fresh hasher of
    kind \<open>h\<close>, and \<open>hash_Sum h data\<close> is \<^verbatim>\<open>hasher.Sum(nil)\<close> after that write;
  \<^item> \<open>rand_Read n\<close> is \<^verbatim>\<open>rand.Read(buf)\<close> on a buffer of \<open>n\<close> bytes: the bytes written
    (from the start of the buffer), the count \<^verbatim>\<open>n\<close> returned and the error;
  \<^item> \<open>zlib_Write data\<close> and \<open>zlib_Close data\<close> are the errors of \<^verbatim>\<open>w.Write(data)\<close> and of
    the \<^verbatim>\<open>w.Close()\<close> that follows, \<open>zlib_Bytes data\<close> is the content of the buffer after
    both;
  \<^item> \<open>zlib_NewReader s\<close> is the error of \<^verbatim>\<open>zlib.NewReader\<close> over the bytes \<open>s\<close>,
    \<open>zlib_Copy s\<close> the outcome of \<^verbatim>\<open>io.Copy(&out, r)\<close> (the error, or the content of
    \<^verbatim>\<open>out\<close>), \<open>zlib_ReaderClose s\<close> the error of \<^verbatim>\<open>r.Close()\<close>;
  \<^item> \<open>aes_Encrypt key block\<close> and \<open>aes_Decrypt key block\<close> are the AES block operations
    of \<^verbatim>\<open>crypto/aes\<close> on one block.
\<close>

datatype hasher = SHA1_New | SHA256_New | SHA256_New224 | SHA512_New384 | SHA512_New

record extern =
  md5_Sum :: "bytes \<Rightarrow> bytes"
  hash_Write :: "hasher \<Rightarrow> bytes \<Rightarrow> error option"
  hash_Sum :: "hasher \<Rightarrow> bytes \<Rightarrow> bytes"
  rand_Read :: "nat \<Rightarrow> bytes \<times> int \<times> error option"
  zlib_Write :: "bytes \<Rightarrow> error option"
  zlib_Close :: "bytes \<Rightarrow> error option"
  zlib_Bytes :: "bytes \<Rightarrow> bytes"
  zlib_NewReader :: "bytes \<Rightarrow> error option"
  zlib_Copy :: "bytes \<Rightarrow> error + bytes"
  zlib_ReaderClose :: "bytes \<Rightarrow> error option"
  aes_Encrypt :: "bytes \<Rightarrow> bytes \<Rightarrow> bytes"
  aes_Decrypt :: "bytes \<Rightarrow> bytes \<Rightarrow> bytes"

section \<open>Compression\<close>

subsection \<open>deflate and inflate\<close>

definition deflate :: "extern \<Rightarrow> bytes \<Rightarrow> bytes \<times> error option" where
  "deflate lib data =
     (case zlib_Write lib data of
        Some e \<Rightarrow> ([], Trace (Some e))
      | None \<Rightarrow>
          (case zlib_Close lib data of
             Some e \<Rightarrow> ([], Trace (Some e))
           | None \<Rightarrow> (zlib_Bytes lib data, None)))"

definition inflate :: "extern \<Rightarrow> bytes \<Rightarrow> bytes \<times> error option" where
  "inflate lib compressStr =
     (case zlib_NewReader lib compressStr of
        Some e \<Rightarrow> ([], Trace (Some e))
      | None \<Rightarrow>
          (case zlib_Copy lib compressStr of
             Inl e \<Rightarrow> ([], Trace (Some e))
           | Inr out \<Rightarrow> (out, Trace (zlib_ReaderClose lib compressStr))))"

subsection \<open>The little-endian length prefix\<close>

text \<open>
  \<^verbatim>\<open>binary.LittleEndian.PutUint32(b, v)\<close> stores \<open>v\<close> in the first four bytes of \<open>b\<close>,
  \<^verbatim>\<open>binary.LittleEndian.Uint32(b)\<close> reads them back. Both are called on slices of at
  least four bytes here.
\<close>

definition PutUint32 :: "bytes \<Rightarrow> 32 word \<Rightarrow> bytes" where
  "PutUint32 b v =
     b[0 := ucast v, 1 := ucast (drop_bit 8 v), 2 := ucast (drop_bit 16 v),
       3 := ucast (drop_bit 24 v)]"

definition Uint32 :: "bytes \<Rightarrow> 32 word" where
  "Uint32 b =
     ucast (b ! 0) OR push_bit 8 (ucast (b ! 1)) OR push_bit 16 (ucast (b ! 2))
       OR push_bit 24 (ucast (b ! 3))"

text \<open>The builtin \<^verbatim>\<open>copy(dst, src)\<close>: the first \<open>min (len dst) (len src)\<close> bytes are copied.\<close>

definition copy :: "bytes \<Rightarrow> bytes \<Rightarrow> bytes" where
  "copy dst src = take (length dst) src @ drop (length src) dst"

subsection \<open>COMPRESS\<close>

text \<open>
  \<^verbatim>\<open>compressed[len(compressed)-1]\<close> panics on an empty slice; the model has that branch.
  \<^verbatim>\<open>uint32(len(str))\<close> keeps the low 32 bits of the length.
\<close>

definition builtinCompressSig_evalString ::
    "extern \<Rightarrow> bytes ret \<Rightarrow> stmt_ctx \<Rightarrow> panic + (bytes ret \<times> stmt_ctx)" where
  "builtinCompressSig_evalString lib arg0 sc =
     (case arg0 of (str, isNull, err) \<Rightarrow>
        if isNull \<or> err \<noteq> None then Inr (([], True, Trace err), sc)
        else if length str = 0 then Inr (([], False, None), sc)
        else
          (case deflate lib str of (compressed, err) \<Rightarrow>
             if err \<noteq> None then Inr (([], True, None), sc)
             else if compressed = [] then Inl IndexOutOfRange
             else
               let resultLength = 4 + length compressed;
                   shouldAppendSuffix = (last compressed = 32);
                   resultLength = (if shouldAppendSuffix then resultLength + 1 else resultLength);
                   buffer = replicate resultLength (0 :: byte);
                   buffer = PutUint32 buffer (word_of_nat (length str));
                   buffer = take 4 buffer @ copy (drop 4 buffer) compressed;
                   buffer = (if shouldAppendSuffix then buffer[length buffer - 1 := 46] else buffer)
               in Inr ((buffer, False, None), sc)))"

subsection \<open>UNCOMPRESS\<close>

text \<open>\<^verbatim>\<open>payload[4:]\<close> is taken only where \<^verbatim>\<open>len(payload) > 4\<close>, so it is \<open>drop 4\<close>.\<close>

definition builtinUncompressSig_evalString ::
    "extern \<Rightarrow> bytes ret \<Rightarrow> stmt_ctx \<Rightarrow> bytes ret \<times> stmt_ctx" where
  "builtinUncompressSig_evalString lib arg0 sc =
     (case arg0 of (payload, isNull, err) \<Rightarrow>
        if isNull \<or> err \<noteq> None then (([], True, Trace err), sc)
        else if length payload = 0 then (([], False, None), sc)
        else if length payload \<le> 4 then (([], True, None), AppendWarning errZlibZData sc)
        else
          (case inflate lib (drop 4 payload) of (bytes, err) \<Rightarrow>
             if err \<noteq> None then (([], True, None), AppendWarning errZlibZData sc)
             else ((bytes, False, None), sc)))"

subsection \<open>UNCOMPRESSED_LENGTH\<close>

text \<open>
  \<^verbatim>\<open>[]byte(payload)[0:4]\<close> is taken only where \<^verbatim>\<open>len(payload) > 4\<close>, so it is \<open>take 4\<close>;
  \<^verbatim>\<open>int64(len)\<close> of a \<^verbatim>\<open>uint32\<close> extends with zeros.
\<close>

definition builtinUncompressedLengthSig_evalInt ::
    "bytes ret \<Rightarrow> stmt_ctx \<Rightarrow> int64 ret \<times> stmt_ctx" where
  "builtinUncompressedLengthSig_evalInt arg0 sc =
     (case arg0 of (payload, isNull, err) \<Rightarrow>
        if isNull \<or> err \<noteq> None then ((0, True, Trace err), sc)
        else if length payload = 0 then ((0, False, None), sc)
        else if length payload \<le> 4 then ((0, False, None), AppendWarning errZlibZData sc)
        else
          let len = Uint32 (take 4 payload)
          in ((ucast len, False, None), sc))"

section \<open>Hashing\<close>

text \<open>
  \<^verbatim>\<open>fmt.Sprintf("%x", sum)\<close> writes every byte as two lowercase hexadecimal digits,
  \<^verbatim>\<open>"%X"\<close> as two uppercase ones.
\<close>

definition hex_lower :: "byte \<Rightarrow> byte" where
  "hex_lower n = (if n < 10 then 48 + n else 87 + n)"

definition hex_upper :: "byte \<Rightarrow> byte" where
  "hex_upper n = (if n < 10 then 48 + n else 55 + n)"

definition Sprintf_x :: "bytes \<Rightarrow> bytes" where
  "Sprintf_x digest =
     concat (map (\<lambda>b. [hex_lower (drop_bit 4 b), hex_lower (b AND 15)]) digest)"

definition Sprintf_X :: "bytes \<Rightarrow> bytes" where
  "Sprintf_X digest =
     concat (map (\<lambda>b. [hex_upper (drop_bit 4 b), hex_upper (b AND 15)]) digest)"

subsection \<open>MD5\<close>

definition builtinMD5Sig_evalString ::
    "extern \<Rightarrow> bytes ret \<Rightarrow> stmt_ctx \<Rightarrow> bytes ret \<times> stmt_ctx" where
  "builtinMD5Sig_evalString lib arg0 sc =
     (case arg0 of (arg, isNull, err) \<Rightarrow>
        if isNull \<or> err \<noteq> None then (([], isNull, Trace err), sc)
        else
          let digest = md5_Sum lib arg;
              hexStr = Sprintf_x digest
          in ((hexStr, False, None), sc))"

subsection \<open>SHA1\<close>


subsection \<open>SHA2\<close>

definition SHA0 :: int64 where "SHA0 = 0"
definition SHA224 :: int64 where "SHA224 = 224"
definition SHA256 :: int64 where "SHA256 = 256"
definition SHA384 :: int64 where "SHA384 = 384"
definition SHA512 :: int64 where "SHA512 = 512"

text \<open>
  \<^verbatim>\<open>int(hashLength)\<close> keeps the value where \<^verbatim>\<open>int\<close> has 64 bits, which is the platform
  modelled. The \<^verbatim>\<open>hasher\<close> variable stays \<^verbatim>\<open>nil\<close> (\<open>None\<close>) when no case of the switch
  matches.
\<close>

definition builtinSHA2Sig_evalString ::
    "extern \<Rightarrow> bytes ret \<Rightarrow> int64 ret \<Rightarrow> stmt_ctx \<Rightarrow> bytes ret \<times> stmt_ctx" where
  "builtinSHA2Sig_evalString lib arg0 arg1 sc =
     (case arg0 of (str, isNull, err) \<Rightarrow>
        if isNull \<or> err \<noteq> None then (([], isNull, Trace err), sc)
        else
          (case arg1 of (hashLength, isNull, err) \<Rightarrow>
             if isNull \<or> err \<noteq> None then (([], isNull, Trace err), sc)
             else
               let hasher =
                     (if hashLength = SHA0 \<or> hashLength = SHA256 then Some SHA256_New
                      else if hashLength = SHA224 then Some SHA256_New224
                      else if hashLength = SHA384 then Some SHA512_New384
                      else if hashLength = SHA512 then Some SHA512_New
                      else None)
               in (case hasher of
                     None \<Rightarrow> (([], True, None), sc)
                   | Some h \<Rightarrow>
                       let err = hash_Write lib h str
                       in if err \<noteq> None then (([], True, Trace err), sc)
                          else ((Sprintf_x (hash_Sum lib h str), False, None), sc))))"

section \<open>PASSWORD\<close>

text \<open>
  Modelled from the spec: \<^verbatim>\<open>auth.EncodePassword\<close> (package \<^verbatim>\<open>util/auth\<close>) is called by
  the evaluator and defined elsewhere. The spec calls its result "the legacy MySQL
  password hash", a "non-empty fixed-format hash" of "fixed hash length + 1" bytes: an
  asterisk followed by the uppercase hexadecimal digits of the SHA-1 of the SHA-1 of the
  password.
\<close>

definition Sha1Hash :: "extern \<Rightarrow> bytes \<Rightarrow> bytes" where
  "Sha1Hash lib bs = hash_Sum lib SHA1_New bs"

definition EncodePassword :: "extern \<Rightarrow> bytes \<Rightarrow> bytes" where
  "EncodePassword lib pwd =
     (if length pwd = 0 then []
      else
        let hash1 = Sha1Hash lib pwd;
            hash2 = Sha1Hash lib hash1
        in 42 # Sprintf_X hash2)"

definition builtinPasswordSig_evalString ::
    "extern \<Rightarrow> bytes ret \<Rightarrow> stmt_ctx \<Rightarrow> bytes ret \<times> stmt_ctx" where
  "builtinPasswordSig_evalString lib arg0 sc =
     (case arg0 of (pass, isNull, err) \<Rightarrow>
        if isNull \<or> err \<noteq> None then (([], err \<noteq> None, Trace err), sc)
        else if length pass = 0 then (([], False, None), sc)
        else
          let sc = AppendWarning (errDeprecatedSyntaxNoReplacement ''PASSWORD'') sc
          in ((EncodePassword lib pass, False, None), sc))"

section \<open>RANDOM_BYTES\<close>

text \<open>
  \<^verbatim>\<open>len\<close> is a signed 64-bit integer. \<^verbatim>\<open>make([]byte, len)\<close> is a buffer of \<open>len\<close> zero
  bytes; \<^verbatim>\<open>rand.Read\<close> writes into it and cannot change its length.
\<close>

definition builtinRandomBytesSig_evalString ::
    "extern \<Rightarrow> int64 ret \<Rightarrow> stmt_ctx \<Rightarrow> bytes ret \<times> stmt_ctx" where
  "builtinRandomBytesSig_evalString lib arg0 sc =
     (case arg0 of (len, isNull, err) \<Rightarrow>
        if isNull \<or> err \<noteq> None then (([], True, Trace err), sc)
        else if sint len < 1 \<or> sint len > 1024 then
          (([], False, Some (ErrOverflow ''length'' ''random_bytes'')), sc)
        else
          let buf = replicate (nat (sint len)) (0 :: byte)
          in (case rand_Read lib (length buf) of (written, n, err) \<Rightarrow>
                let buf = copy buf written
                in if err \<noteq> None then (([], True, Trace err), sc)
                   else if n \<noteq> sint len then
                     (([], False, Some (ErrorsNew ''fail to generate random bytes'')), sc)
                   else ((buf, False, None), sc)))"

section \<open>AES_ENCRYPT and AES_DECRYPT\<close>

definition aes128ecbBlobkSize :: nat where
  "aes128ecbBlobkSize = 16"

subsection \<open>The encrypt package\<close>

text \<open>
  Modelled from the spec: \<^verbatim>\<open>encrypt.DeriveKeyMySQL\<close> (package \<^verbatim>\<open>util/encrypt\<close>) is called
  by both evaluators and defined elsewhere. The spec describes it as "the engine's
  MySQL-compatible key-stretching algorithm (XOR-folding into a 16-byte buffer)": the
  bytes of the key string are XORed, one after the other and wrapping around, into a
  buffer of \<open>blockSize\<close> zero bytes.
\<close>

fun DeriveKeyMySQL_loop :: "bytes \<Rightarrow> nat \<Rightarrow> bytes \<Rightarrow> nat \<Rightarrow> bytes" where
  "DeriveKeyMySQL_loop [] blockSize rKey rIdx = rKey"
| "DeriveKeyMySQL_loop (k # key) blockSize rKey rIdx =
     (let rIdx = (if rIdx = blockSize then 0 else rIdx)
      in DeriveKeyMySQL_loop key blockSize (rKey[rIdx := (rKey ! rIdx) XOR k]) (rIdx + 1))"

definition DeriveKeyMySQL :: "bytes \<Rightarrow> nat \<Rightarrow> bytes" where
  "DeriveKeyMySQL key blockSize = DeriveKeyMySQL_loop key blockSize (replicate blockSize 0) 0"

text \<open>
  Modelled from the spec: \<^verbatim>\<open>encrypt.AESEncryptWithECB\<close> and
  \<^verbatim>\<open>encrypt.AESDecryptWithECB\<close> (package \<^verbatim>\<open>util/encrypt\<close>) are called by the evaluators
  and defined elsewhere. The spec says "apply ECB-mode AES", ECB being "a block-cipher
  mode of operation applying the cipher independently to fixed-size blocks, with no
  chaining", with "a 128-bit block", and gives the length of a ciphertext as
  \<open>blockSize * (inputLen / blockSize + 1)\<close>: the plaintext is padded to the next whole
  number of blocks, by one to sixteen bytes that each hold the padding length (PKCS #7,
  as MySQL pads), and decryption removes the padding. The cipher is created from the
  key by \<^verbatim>\<open>aes.NewCipher\<close>, which accepts keys of 16, 24 or 32 bytes.
\<close>

definition NewCipher :: "bytes \<Rightarrow> error option" where
  "NewCipher key =
     (if length key = 16 \<or> length key = 24 \<or> length key = 32 then None
      else Some (ErrorsNew ''crypto/aes: invalid key size''))"

definition PKCS7Pad :: "bytes \<Rightarrow> nat \<Rightarrow> bytes" where
  "PKCS7Pad data blockSize =
     (let padLen = blockSize - length data mod blockSize
      in data @ replicate padLen (word_of_nat padLen))"

definition PKCS7Unpad :: "bytes \<Rightarrow> nat \<Rightarrow> error + bytes" where
  "PKCS7Unpad data blockSize =
     (let len = length data
      in if len = 0 then Inl (ErrorsNew ''Invalid padding size'')
         else if len mod blockSize \<noteq> 0 then Inl (ErrorsNew ''Invalid padding size'')
         else
           let pad = last data;
               padLen = unat pad
           in if padLen > blockSize \<or> padLen = 0 then Inl (ErrorsNew ''Invalid padding size'')
              else if list_ex (\<lambda>v. v \<noteq> pad) (take (padLen - 1) (drop (len - padLen) data))
              then Inl (ErrorsNew ''Invalid padding'')
              else Inr (take (len - padLen) data))"

function CryptBlocks :: "(bytes \<Rightarrow> bytes) \<Rightarrow> nat \<Rightarrow> bytes \<Rightarrow> bytes" where
  "CryptBlocks f blockSize src =
     (if src = [] \<or> blockSize = 0 then []
      else f (take blockSize src) @ CryptBlocks f blockSize (drop blockSize src))"
  by pat_completeness auto
termination
  by (relation "measure (\<lambda>(f, blockSize, src). length src)") auto

declare CryptBlocks.simps [simp del]

definition AESEncryptWithECB :: "extern \<Rightarrow> bytes \<Rightarrow> bytes \<Rightarrow> bytes \<times> error option" where
  "AESEncryptWithECB lib str key =
     (case NewCipher key of
        Some e \<Rightarrow> ([], Trace (Some e))
      | None \<Rightarrow>
          let blockSize = 16;
              data = PKCS7Pad str blockSize;
              crypted = CryptBlocks (aes_Encrypt lib key) blockSize data
          in (crypted, None))"

definition AESDecryptWithECB :: "extern \<Rightarrow> bytes \<Rightarrow> bytes \<Rightarrow> bytes \<times> error option" where
  "AESDecryptWithECB lib cryptStr key =
     (case NewCipher key of
        Some e \<Rightarrow> ([], Trace (Some e))
      | None \<Rightarrow>
          let blockSize = 16
          in if length cryptStr mod blockSize \<noteq> 0 then ([], Some (ErrorsNew ''Corrupted data''))
             else
               let data = CryptBlocks (aes_Decrypt lib key) blockSize cryptStr
               in (case PKCS7Unpad data blockSize of
                     Inl e \<Rightarrow> ([], Trace (Some e))
                   | Inr plain \<Rightarrow> (plain, None)))"

subsection \<open>The evaluators\<close>

definition builtinAesDecryptSig_evalString ::
    "extern \<Rightarrow> bytes ret \<Rightarrow> bytes ret \<Rightarrow> stmt_ctx \<Rightarrow> bytes ret \<times> stmt_ctx" where
  "builtinAesDecryptSig_evalString lib arg0 arg1 sc =
     (case arg0 of (cryptStr, isNull, err) \<Rightarrow>
        if isNull \<or> err \<noteq> None then (([], True, Trace err), sc)
        else
          (case arg1 of (keyStr, isNull, err) \<Rightarrow>
             if isNull \<or> err \<noteq> None then (([], True, Trace err), sc)
             else
               let key = DeriveKeyMySQL keyStr aes128ecbBlobkSize
               in (case AESDecryptWithECB lib cryptStr key of (plainText, err) \<Rightarrow>
                     if err \<noteq> None then (([], True, None), sc)
                     else ((plainText, False, None), sc))))"

definition builtinAesEncryptSig_evalString ::
    "extern \<Rightarrow> bytes ret \<Rightarrow> bytes ret \<Rightarrow> stmt_ctx \<Rightarrow> bytes ret \<times> stmt_ctx" where
  "builtinAesEncryptSig_evalString lib arg0 arg1 sc =
     (case arg0 of (str, isNull, err) \<Rightarrow>
        if isNull \<or> err \<noteq> None then (([], True, Trace err), sc)
        else
          (case arg1 of (keyStr, isNull, err) \<Rightarrow>
             if isNull \<or> err \<noteq> None then (([], True, Trace err), sc)
             else
               let key = DeriveKeyMySQL keyStr aes128ecbBlobkSize
               in (case AESEncryptWithECB lib str key of (cipherText, err) \<Rightarrow>
                     if err \<noteq> None then (([], True, None), sc)
                     else ((cipherText, False, None), sc))))"

section \<open>A reference instance of the library calls\<close>

text \<open>
  The theorems below hold for every library. To run the evaluators on concrete inputs
  the library calls are instantiated with small stand-ins: a checksum for the digests,
  a constant random source, a byte-stuffing codec that ends with a checksum byte and
  ignores what follows it (as the zlib reader ignores bytes after the stream), and an
  invertible byte-wise block operation.
\<close>

definition ref_digest :: "bytes \<Rightarrow> bytes" where
  "ref_digest data = [fold (+) data 1, word_of_nat (length data)]"

definition ref_rand_Read :: "nat \<Rightarrow> bytes \<times> int \<times> error option" where
  "ref_rand_Read n = (replicate n 7, int n, None)"

definition ref_pack :: "bytes \<Rightarrow> bytes" where
  "ref_pack data = concat (map (\<lambda>b. [1, b]) data) @ [0, fold (+) data 1]"

fun ref_unpack :: "bytes \<Rightarrow> error + bytes" where
  "ref_unpack (t # b # rest) =
     (if t = 1 then (case ref_unpack rest of Inl e \<Rightarrow> Inl e | Inr out \<Rightarrow> Inr (b # out))
      else if t = 0 then Inr []
      else Inl (ErrExternal 0))"
| "ref_unpack _ = Inl (ErrExternal 0)"

definition ref_encrypt :: "bytes \<Rightarrow> bytes \<Rightarrow> bytes" where
  "ref_encrypt key block = map2 (\<lambda>k b. (b XOR k) + 1) key block"

definition ref_decrypt :: "bytes \<Rightarrow> bytes \<Rightarrow> bytes" where
  "ref_decrypt key block = map2 (\<lambda>k c. (c - 1) XOR k) key block"

definition ref_lib :: extern where
  "ref_lib =
     \<lparr>md5_Sum = ref_digest,
      hash_Write = (\<lambda>h data. None),
      hash_Sum = (\<lambda>h. ref_digest),
      rand_Read = ref_rand_Read,
      zlib_Write = (\<lambda>data. None),
      zlib_Close = (\<lambda>data. None),
      zlib_Bytes = ref_pack,
      zlib_NewReader = (\<lambda>s. None),
      zlib_Copy = ref_unpack,
      zlib_ReaderClose = (\<lambda>s. None),
      aes_Encrypt = ref_encrypt,
      aes_Decrypt = ref_decrypt\<rparr>"

definition sc0 :: stmt_ctx where
  "sc0 = \<lparr>warnings = []\<rparr>"

section \<open>The wire format of the spec and what is required of the libraries\<close>

text \<open>
  The wire format of the spec: the length, reduced to 32 bits, as four bytes with the
  least significant first.
\<close>

definition spec_le_uint32 :: "nat \<Rightarrow> bytes" where
  "spec_le_uint32 n =
     (let v = n mod 2 ^ 32
      in [word_of_nat (v mod 256), word_of_nat (v div 2 ^ 8 mod 256),
          word_of_nat (v div 2 ^ 16 mod 256), word_of_nat (v div 2 ^ 24 mod 256)])"

text \<open>
  What the round trip of COMPRESS and UNCOMPRESS needs of the zlib library, stated on
  the library calls themselves. A reader over the bytes \<open>stream\<close> reads \<open>s\<close> when
  \<^verbatim>\<open>zlib.NewReader\<close> accepts the stream, \<^verbatim>\<open>io.Copy\<close> delivers \<open>s\<close> and \<^verbatim>\<open>Close\<close> reports no
  error. The library inverts itself at \<open>s\<close> when writing \<open>s\<close> and closing the writer
  report no error and leave a non-empty stream in the buffer, a reader over that stream
  reads \<open>s\<close>, and, where the stream ends in a space, a reader over the stream followed
  by one \<^verbatim>\<open>'.'\<close> still reads \<open>s\<close> (the reader stops at the end of the stream).
\<close>

definition zlib_reads :: "extern \<Rightarrow> bytes \<Rightarrow> bytes \<Rightarrow> bool" where
  "zlib_reads lib stream s \<longleftrightarrow>
     zlib_NewReader lib stream = None \<and> zlib_Copy lib stream = Inr s
     \<and> zlib_ReaderClose lib stream = None"

definition zlib_inverts :: "extern \<Rightarrow> bytes \<Rightarrow> bool" where
  "zlib_inverts lib s \<longleftrightarrow>
     zlib_Write lib s = None \<and> zlib_Close lib s = None \<and> zlib_Bytes lib s \<noteq> []
     \<and> zlib_reads lib (zlib_Bytes lib s) s
     \<and> (last (zlib_Bytes lib s) = 32 \<longrightarrow> zlib_reads lib (zlib_Bytes lib s @ [46]) s)"

text \<open>
  What the round trip of AES_ENCRYPT and AES_DECRYPT needs of the AES block cipher:
  under a key of 16 bytes, encrypting a block of 16 bytes gives a block of 16 bytes, and
  decrypting that block gives the first one back.
\<close>

definition aes_block_inverse :: "extern \<Rightarrow> bool" where
  "aes_block_inverse lib \<longleftrightarrow>
     (\<forall>key block. length key = 16 \<and> length block = 16 \<longrightarrow>
        length (aes_Encrypt lib key block) = 16
        \<and> aes_Decrypt lib key (aes_Encrypt lib key block) = block)"

section \<open>The length prefix as a number\<close>

lemma or_push_bit_nat:
  fixes a b :: nat
  assumes "a < 2 ^ n"
  shows "a OR push_bit n b = a + 2 ^ n * b"
proof -
  have a: "take_bit n a = a"
    using assms by (simp add: take_bit_nat_eq_self)
  have "take_bit n a AND push_bit n b = 0"
    by (auto simp add: bit_eq_iff bit_simps)
  then have "take_bit n a + push_bit n b = take_bit n a OR push_bit n b"
    by (rule disjunctive_add_eq_or)
  then show ?thesis
    by (simp add: a push_bit_eq_mult mult.commute)
qed

lemma Uint32_unat:
  "unat (Uint32 [b0, b1, b2, b3]) =
     unat b0 + 2 ^ 8 * unat b1 + 2 ^ 16 * unat b2 + 2 ^ 24 * unat b3"
proof -
  have b: "unat x < 2 ^ 8" for x :: byte
    using unsigned_less [of x] by simp
  have t: "take_bit 32 (unat x) = unat x" for x :: byte
    using b [of x] by (simp add: take_bit_nat_eq_self)
  have p: "take_bit 32 (push_bit k (unat x)) = push_bit k (unat x)"
    if "k \<le> 24" for x :: byte and k
  proof -
    have "push_bit k (unat x) < 2 ^ k * 2 ^ 8"
      using b [of x] by (simp add: push_bit_eq_mult)
    also have "\<dots> = 2 ^ (k + 8)"
      by (simp add: power_add)
    also have "\<dots> \<le> (2::nat) ^ 32"
      using that by (intro power_increasing) auto
    finally show ?thesis
      by (simp add: take_bit_nat_eq_self)
  qed
  have "unat (Uint32 [b0, b1, b2, b3]) =
      unat b0 OR push_bit 8 (unat b1) OR push_bit 16 (unat b2) OR push_bit 24 (unat b3)"
    by (simp add: Uint32_def unsigned_or_eq unsigned_push_bit_eq unsigned_ucast_eq t p)
  also have "\<dots> =
      unat b0 OR push_bit 8 (unat b1 OR push_bit 8 (unat b2 OR push_bit 8 (unat b3)))"
    by simp
  also have "\<dots> = unat b0 + 2 ^ 8 * unat b1 + 2 ^ 16 * unat b2 + 2 ^ 24 * unat b3"
    by (simp add: or_push_bit_nat [OF b])
  finally show ?thesis .
qed

lemma take4: "4 < length xs \<Longrightarrow> take 4 xs = [xs ! 0, xs ! 1, xs ! 2, xs ! 3]"
  by (cases xs; cases "tl xs"; cases "tl (tl xs)"; cases "tl (tl (tl xs))") auto

lemma sint_ucast_32_64: "sint (ucast (w :: 32 word) :: int64) = int (unat w)"
proof -
  have "uint w < 2 ^ 32"
    using uint_lt2p [of w] by simp
  then have "uint w < 2 ^ 63"
    by simp
  moreover have "- (2 ^ 63) \<le> uint w"
    by (rule order_trans [of _ 0]) simp_all
  ultimately have "signed_take_bit 63 (uint w) = uint w"
    by (rule_tac signed_take_bit_int_eq_self)
  then show ?thesis
    by (simp add: signed_ucast_eq)
qed

section \<open>Corrupted payloads\<close>

text \<open>
  C4. For every payload \<open>x\<close> of one to four bytes, UNCOMPRESS returns NULL with no error
  and appends exactly one \<open>errZlibZData\<close> warning to the statement context; for the empty
  payload it returns the empty string, not NULL, and leaves the warnings as they are.
\<close>

theorem uncompress_short_payload:
  "(1 \<le> length x \<and> length x \<le> 4 \<longrightarrow>
      builtinUncompressSig_evalString lib (x, False, None) sc =
        (([], True, None), sc\<lparr>warnings := warnings sc @ [errZlibZData]\<rparr>))
   \<and> builtinUncompressSig_evalString lib ([], False, None) sc = (([], False, None), sc)"
  by (simp add: builtinUncompressSig_evalString_def AppendWarning_def)

theorem uncompress_short_payload_witness:
  "builtinUncompressSig_evalString ref_lib ([120, 156, 3], False, None) sc0 =
     (([], True, None), \<lparr>warnings = [errZlibZData]\<rparr>)
   \<and> builtinUncompressSig_evalString ref_lib ([], False, None) sc0 = (([], False, None), sc0)"
  using uncompress_short_payload [of "[120, 156, 3]" ref_lib sc0] by (simp add: sc0_def)

text \<open>
  C5. For every payload \<open>x\<close> of one to four bytes, UNCOMPRESSED_LENGTH returns the integer
  0, not NULL, with no error, and appends one \<open>errZlibZData\<close> warning: on the payloads
  where UNCOMPRESS returns NULL, UNCOMPRESSED_LENGTH returns 0.
\<close>

theorem uncompressed_length_short_payload:
  "1 \<le> length x \<and> length x \<le> 4 \<longrightarrow>
      builtinUncompressedLengthSig_evalInt (x, False, None) sc =
        ((0, False, None), sc\<lparr>warnings := warnings sc @ [errZlibZData]\<rparr>)
      \<and> fst (snd (fst (builtinUncompressSig_evalString lib (x, False, None) sc)))"
  by (simp add: builtinUncompressedLengthSig_evalInt_def builtinUncompressSig_evalString_def
      AppendWarning_def)

theorem uncompressed_length_short_payload_witness:
  "builtinUncompressedLengthSig_evalInt ([1, 0, 0, 0], False, None) sc0 =
     ((0, False, None), \<lparr>warnings = [errZlibZData]\<rparr>)
   \<and> fst (snd (fst (builtinUncompressSig_evalString ref_lib ([1, 0, 0, 0], False, None) sc0)))"
  using uncompressed_length_short_payload [of "[1, 0, 0, 0]" sc0 ref_lib]
  by (simp add: sc0_def)

section \<open>The uncompressed length of a longer payload\<close>

text \<open>
  C10. For every payload of more than four bytes, UNCOMPRESSED_LENGTH returns, not NULL
  and with no error and no warning, the number whose little-endian 32-bit encoding is
  the first four bytes. The evaluator takes no library call, so it decompresses
  nothing, and its result is the same for any two payloads that agree on the first four
  bytes, whatever follows them.
\<close>

theorem uncompressed_length_prefix:
  "4 < length payload \<longrightarrow>
     (\<exists>n. builtinUncompressedLengthSig_evalInt (payload, False, None) sc = ((n, False, None), sc)
        \<and> sint n = int (unat (payload ! 0) + 2 ^ 8 * unat (payload ! 1)
                      + 2 ^ 16 * unat (payload ! 2) + 2 ^ 24 * unat (payload ! 3)))
     \<and> (\<forall>other. 4 < length other \<and> take 4 other = take 4 payload \<longrightarrow>
           builtinUncompressedLengthSig_evalInt (other, False, None) sc =
           builtinUncompressedLengthSig_evalInt (payload, False, None) sc)"
  by (auto simp add: builtinUncompressedLengthSig_evalInt_def Let_def take4 Uint32_unat
      sint_ucast_32_64 simp del: of_nat_add of_nat_mult)

theorem uncompressed_length_prefix_witness:
  "4 < length [1, 2, 0, 0, 255 :: byte]
   \<and> (\<exists>n. builtinUncompressedLengthSig_evalInt ([1, 2, 0, 0, 255], False, None) sc0 =
            ((n, False, None), sc0) \<and> sint n = 513)
   \<and> builtinUncompressedLengthSig_evalInt ([1, 2, 0, 0, 7, 7], False, None) sc0 =
       builtinUncompressedLengthSig_evalInt ([1, 2, 0, 0, 255], False, None) sc0"
proof -
  let ?p = "[1, 2, 0, 0, 255 :: byte]"
  let ?q = "[1, 2, 0, 0, 7, 7 :: byte]"
  have h: "4 < length ?p"
    by simp
  have o: "4 < length ?q \<and> take 4 ?q = take 4 ?p"
    by simp
  from uncompressed_length_prefix [of ?p sc0] h
  have a: "\<exists>n. builtinUncompressedLengthSig_evalInt (?p, False, None) sc0 =
              ((n, False, None), sc0)
            \<and> sint n = int (unat (?p ! 0) + 2 ^ 8 * unat (?p ! 1)
                          + 2 ^ 16 * unat (?p ! 2) + 2 ^ 24 * unat (?p ! 3))"
    and b: "\<forall>other. 4 < length other \<and> take 4 other = take 4 ?p \<longrightarrow>
           builtinUncompressedLengthSig_evalInt (other, False, None) sc0 =
           builtinUncompressedLengthSig_evalInt (?p, False, None) sc0"
    by blast+
  from a have a': "\<exists>n. builtinUncompressedLengthSig_evalInt (?p, False, None) sc0 =
      ((n, False, None), sc0) \<and> sint n = 513"
    by simp
  from b o have "builtinUncompressedLengthSig_evalInt (?q, False, None) sc0 =
      builtinUncompressedLengthSig_evalInt (?p, False, None) sc0"
    by blast
  with h a' show ?thesis
    by blast
qed

section \<open>The compressed payload\<close>

lemma ucast_drop_of_nat:
  "(ucast (drop_bit k (word_of_nat n :: 32 word)) :: byte) =
     word_of_nat (n mod 2 ^ 32 div 2 ^ k mod 256)"
proof -
  have "unat (ucast (drop_bit k (word_of_nat n :: 32 word)) :: byte) =
      drop_bit k (n mod 2 ^ 32) mod 256"
    by (simp only: unsigned_ucast_eq unat_drop_bit_eq unat_of_nat take_bit_eq_mod) simp
  then show ?thesis
    by (simp add: word_unat_eq_iff unat_of_nat drop_bit_eq_div take_bit_eq_mod)
qed

lemma ucast_of_nat:
  "(ucast (word_of_nat n :: 32 word) :: byte) = word_of_nat (n mod 2 ^ 32 mod 256)"
  using ucast_drop_of_nat [of 0 n] by simp

lemma update4: "(a # b # c # d # xs)[0 := w, 1 := x, 2 := y, 3 := z] = w # x # y # z # xs"
  by (simp add: numeral_2_eq_2 numeral_3_eq_3)

lemma PutUint32_zeros:
  "PutUint32 (replicate (4 + m) 0) (word_of_nat n) = spec_le_uint32 n @ replicate m 0"
proof -
  have "replicate (4 + m) (0::byte) = 0 # 0 # 0 # 0 # replicate m 0"
    by (simp add: numeral_Bit0 flip: replicate_Suc)
  then show ?thesis
    unfolding PutUint32_def spec_le_uint32_def Let_def
    by (simp only: update4 ucast_drop_of_nat ucast_of_nat append.simps)
qed

lemma length_spec_le_uint32 [simp]: "length (spec_le_uint32 n) = 4"
  by (simp add: spec_le_uint32_def Let_def)

lemma compress_buffer:
  assumes "c \<noteq> []"
  shows "take 4 (spec_le_uint32 n @ replicate (length c + k) 0)
           @ copy (drop 4 (spec_le_uint32 n @ replicate (length c + k) 0)) c
         = spec_le_uint32 n @ c @ replicate k 0"
  by (simp add: copy_def)


lemma update_last: "(xs @ [a])[length (xs @ [a]) - 1 := b] = xs @ [b]"
  by simp

lemma drop_Cons_replicate: "drop n (x # replicate n x) = [x]"
  using drop_replicate [of n "Suc n" x] by (simp del: drop_replicate)

lemma compress_nonempty:
  assumes s: "s \<noteq> []" and d: "deflate lib s = (c, None)" and c: "c \<noteq> []"
  shows "builtinCompressSig_evalString lib (s, False, None) sc =
           Inr ((spec_le_uint32 (length s) @ c @ (if last c = 32 then [46] else []), False, None), sc)"
proof (cases "last c = 32")
  case True
  have "(spec_le_uint32 (length s) @ c @ replicate 1 0)
          [length (spec_le_uint32 (length s) @ c @ replicate 1 0) - 1 := 46]
        = spec_le_uint32 (length s) @ c @ [46]"
    using update_last [of "spec_le_uint32 (length s) @ c" 0 46] by simp
  moreover have "PutUint32 (replicate (5 + length c) 0) (word_of_nat (length s)) =
      spec_le_uint32 (length s) @ replicate (Suc (length c)) 0"
    using PutUint32_zeros [of "Suc (length c)" "length s"] by simp
  ultimately show ?thesis
    using True s d c
    unfolding builtinCompressSig_evalString_def Let_def
    by (simp add: copy_def drop_Cons_replicate)
next
  case False
  with s d c show ?thesis
    unfolding builtinCompressSig_evalString_def Let_def
    using PutUint32_zeros [of "length c" "length s"] compress_buffer [OF c, of "length s" 0]
    by simp
qed

text \<open>
  C3. For every non-empty string \<open>s\<close> whose deflate stream is \<open>c\<close> (deflate succeeds, and a
  zlib stream is not empty), COMPRESS returns, not NULL and with no error, the four
  bytes of the little-endian 32-bit encoding of the length of \<open>s\<close>, then \<open>c\<close>, then one
  \<^verbatim>\<open>'.'\<close> byte if and only if the last byte of \<open>c\<close> is a space (0x20); so its length is
  \<open>4 + length c + 1\<close> when \<open>c\<close> ends in a space and \<open>4 + length c\<close> otherwise. For the empty
  string it returns the empty string, with no framing.
\<close>

theorem compress_wire_format:
  "(s \<noteq> [] \<and> deflate lib s = (c, None) \<and> c \<noteq> [] \<longrightarrow>
      builtinCompressSig_evalString lib (s, False, None) sc =
        Inr ((spec_le_uint32 (length s) @ c @ (if last c = 32 then [46] else []), False, None), sc)
      \<and> length (spec_le_uint32 (length s) @ c @ (if last c = 32 then [46] else [])) =
          (if last c = 32 then 4 + length c + 1 else 4 + length c))
   \<and> builtinCompressSig_evalString lib ([], False, None) sc = Inr (([], False, None), sc)"
proof -
  have "builtinCompressSig_evalString lib ([], False, None) sc = Inr (([], False, None), sc)"
    by (simp add: builtinCompressSig_evalString_def)
  then show ?thesis
    using compress_nonempty [of s lib c sc] by simp
qed


lemma deflate_ref_lib: "deflate ref_lib s = (ref_pack s, None)"
  by (simp add: deflate_def ref_lib_def)

theorem compress_wire_format_witness:
  "[31 :: byte] \<noteq> [] \<and> deflate ref_lib [31] = ([1, 31, 0, 32], None)
   \<and> builtinCompressSig_evalString ref_lib ([31], False, None) sc0 =
        Inr (([1, 0, 0, 0, 1, 31, 0, 32, 46], False, None), sc0)
   \<and> deflate ref_lib [97, 98] = ([1, 97, 1, 98, 0, 196], None)
   \<and> builtinCompressSig_evalString ref_lib ([97, 98], False, None) sc0 =
        Inr (([2, 0, 0, 0, 1, 97, 1, 98, 0, 196], False, None), sc0)"
  using compress_wire_format [of "[31]" ref_lib "[1, 31, 0, 32]" sc0]
    compress_wire_format [of "[97, 98]" ref_lib "[1, 97, 1, 98, 0, 196]" sc0]
  by (simp add: deflate_ref_lib ref_pack_def spec_le_uint32_def)

text \<open>
  The stand-in codec of the reference library inverts itself at every input, also when
  bytes follow the stream.
\<close>

lemma ref_unpack_pack:
  "ref_unpack (concat (map (\<lambda>b. [1, b]) s) @ 0 # ck # t) = Inr s"
  by (induction s) auto

lemma ref_lib_inverts: "zlib_inverts ref_lib s"
  by (simp add: zlib_inverts_def zlib_reads_def ref_lib_def ref_pack_def ref_unpack_pack)

text \<open>
  The source's \<^verbatim>\<open>deflate\<close> and \<^verbatim>\<open>inflate\<close> over a library that behaves so: \<^verbatim>\<open>deflate\<close>
  returns the buffer of the writer, \<^verbatim>\<open>inflate\<close> what the reader reads.
\<close>

lemma deflate_inverts:
  assumes "zlib_inverts lib s"
  shows "deflate lib s = (zlib_Bytes lib s, None)"
  using assms unfolding zlib_inverts_def deflate_def by simp

lemma inflate_reads:
  assumes "zlib_reads lib stream s"
  shows "inflate lib stream = (s, None)"
  using assms unfolding zlib_reads_def inflate_def Trace_def by simp

text \<open>
  C2. For every string \<open>s\<close>, the empty one included, COMPRESS returns a payload, not NULL
  and with no error, and UNCOMPRESS of that payload returns \<open>s\<close>, not NULL, with no error
  and no warning. The zlib library is a parameter: for a non-empty \<open>s\<close> its writer and
  reader are required to invert each other at \<open>s\<close> (\<open>zlib_inverts\<close>, a condition on the
  library calls; \<^verbatim>\<open>deflate\<close>, \<^verbatim>\<open>inflate\<close> and both evaluators are the code's).
\<close>

theorem uncompress_compress_roundtrip:
  assumes "s \<noteq> [] \<Longrightarrow> zlib_inverts lib s"
  shows "\<exists>payload.
           builtinCompressSig_evalString lib (s, False, None) sc = Inr ((payload, False, None), sc)
           \<and> builtinUncompressSig_evalString lib (payload, False, None) sc = ((s, False, None), sc)"
proof (cases "s = []")
  case True
  then show ?thesis
    by (simp add: builtinCompressSig_evalString_def builtinUncompressSig_evalString_def)
next
  case False
  with assms have z: "zlib_inverts lib s"
    by simp
  let ?c = "zlib_Bytes lib s"
  from z have c: "?c \<noteq> []" and r: "zlib_reads lib ?c s"
    and r': "last ?c = 32 \<Longrightarrow> zlib_reads lib (?c @ [46]) s"
    by (simp_all add: zlib_inverts_def)
  have d: "deflate lib s = (?c, None)"
    using z by (rule deflate_inverts)
  let ?payload = "spec_le_uint32 (length s) @ ?c @ (if last ?c = 32 then [46] else [])"
  have 1: "builtinCompressSig_evalString lib (s, False, None) sc =
      Inr ((?payload, False, None), sc)"
    using compress_nonempty [OF False d c] by simp
  have "4 < length ?payload"
    using c by (cases ?c) auto
  moreover have "inflate lib (drop 4 ?payload) = (s, None)"
    using inflate_reads [OF r] inflate_reads [OF r'] by simp
  ultimately have "builtinUncompressSig_evalString lib (?payload, False, None) sc =
      ((s, False, None), sc)"
    unfolding builtinUncompressSig_evalString_def by (simp del: drop_append)
  with 1 show ?thesis
    by blast
qed

theorem uncompress_compress_roundtrip_witness:
  "zlib_inverts ref_lib [31]
   \<and> builtinCompressSig_evalString ref_lib ([31], False, None) sc0 =
        Inr (([1, 0, 0, 0, 1, 31, 0, 32, 46], False, None), sc0)
   \<and> builtinUncompressSig_evalString ref_lib ([1, 0, 0, 0, 1, 31, 0, 32, 46], False, None) sc0 =
        (([31], False, None), sc0)"
proof -
  have z: "zlib_inverts ref_lib [31]"
    by (rule ref_lib_inverts)
  from uncompress_compress_roundtrip [of "[31]" ref_lib sc0, OF z]
  obtain payload where
    p: "builtinCompressSig_evalString ref_lib ([31], False, None) sc0 =
          Inr ((payload, False, None), sc0)"
    and u: "builtinUncompressSig_evalString ref_lib (payload, False, None) sc0 =
          (([31], False, None), sc0)"
    by blast
  have "builtinCompressSig_evalString ref_lib ([31], False, None) sc0 =
      Inr (([1, 0, 0, 0, 1, 31, 0, 32, 46], False, None), sc0)"
    using compress_nonempty [of "[31]" ref_lib "[1, 31, 0, 32]" sc0]
    by (simp add: deflate_ref_lib ref_pack_def spec_le_uint32_def)
  with p u z show ?thesis
    by simp
qed

section \<open>SHA2 hash lengths\<close>

text \<open>
  C6. For every string \<open>s\<close>, SHA2 with hash length 0 returns what SHA2 with hash length
  256 returns; and for every hash length other than 0, 224, 256, 384 and 512, SHA2
  returns NULL with no error and leaves the warnings as they are.
\<close>

theorem sha2_hash_length:
  "builtinSHA2Sig_evalString lib (s, False, None) (0, False, None) sc =
     builtinSHA2Sig_evalString lib (s, False, None) (256, False, None) sc
   \<and> (hashLength \<notin> {0, 224, 256, 384, 512} \<longrightarrow>
        builtinSHA2Sig_evalString lib (s, False, None) (hashLength, False, None) sc =
          (([], True, None), sc))"
  by (simp add: builtinSHA2Sig_evalString_def SHA0_def SHA224_def SHA256_def SHA384_def SHA512_def)


theorem sha2_hash_length_witness:
  "(1 :: int64) \<notin> {0, 224, 256, 384, 512}
   \<and> builtinSHA2Sig_evalString ref_lib ([97], False, None) (1, False, None) sc0 =
       (([], True, None), sc0)
   \<and> builtinSHA2Sig_evalString ref_lib ([97], False, None) (0, False, None) sc0 =
       builtinSHA2Sig_evalString ref_lib ([97], False, None) (256, False, None) sc0"
  using sha2_hash_length [of ref_lib "[97]" sc0 1] by simp

section \<open>The length of RANDOM_BYTES\<close>

text \<open>
  C7. For every non-NULL length \<open>n\<close>: when \<open>n < 1\<close> or \<open>n > 1024\<close>, RANDOM_BYTES returns
  the overflow error, with the NULL flag unset and no warning appended. When
  \<open>1 \<le> n \<le> 1024\<close> and the random source reports no error and \<open>n\<close> bytes read, it
  returns a byte string of length exactly \<open>n\<close>, not NULL; when the source reports no error
  but another count (a short read), it returns the error "fail to generate random
  bytes"; an error of the source itself is returned as it is.
\<close>

theorem random_bytes_range:
  "(sint n < 1 \<or> 1024 < sint n \<longrightarrow>
      builtinRandomBytesSig_evalString lib (n, False, None) sc =
        (([], False, Some (ErrOverflow ''length'' ''random_bytes'')), sc))
   \<and> (1 \<le> sint n \<and> sint n \<le> 1024 \<longrightarrow>
        (case rand_Read lib (nat (sint n)) of (written, m, e) \<Rightarrow>
           (e = None \<and> m = sint n \<longrightarrow>
              (\<exists>buf. builtinRandomBytesSig_evalString lib (n, False, None) sc =
                       ((buf, False, None), sc)
                     \<and> buf = copy (replicate (nat (sint n)) 0) written
                     \<and> int (length buf) = sint n))
           \<and> (e = None \<and> m \<noteq> sint n \<longrightarrow>
                builtinRandomBytesSig_evalString lib (n, False, None) sc =
                  (([], False, Some (ErrorsNew ''fail to generate random bytes'')), sc))
           \<and> (e \<noteq> None \<longrightarrow>
                builtinRandomBytesSig_evalString lib (n, False, None) sc =
                  (([], True, e), sc))))"
proof -
  have len: "length (copy (replicate k (0 :: byte)) w) = k" for k w
    by (simp add: copy_def)
  show ?thesis
    by (auto simp add: builtinRandomBytesSig_evalString_def Let_def Trace_def len
        split: prod.splits)
qed


theorem random_bytes_range_witness:
  "sint (0 :: int64) < 1
   \<and> builtinRandomBytesSig_evalString ref_lib (0, False, None) sc0 =
       (([], False, Some (ErrOverflow ''length'' ''random_bytes'')), sc0)
   \<and> 1024 < sint (1025 :: int64)
   \<and> builtinRandomBytesSig_evalString ref_lib (1025, False, None) sc0 =
       (([], False, Some (ErrOverflow ''length'' ''random_bytes'')), sc0)
   \<and> 1 \<le> sint (3 :: int64) \<and> sint (3 :: int64) \<le> 1024
   \<and> rand_Read ref_lib (nat (sint (3 :: int64))) = ([7, 7, 7], 3, None)
   \<and> builtinRandomBytesSig_evalString ref_lib (3, False, None) sc0 = (([7, 7, 7], False, None), sc0)"
proof -
  have r: "rand_Read ref_lib (nat (sint (3 :: int64))) = ([7, 7, 7], 3, None)"
    by (simp add: ref_lib_def ref_rand_Read_def numeral_3_eq_3)
  have c: "copy (replicate (nat (sint (3 :: int64))) 0) [7, 7, 7] = [7, 7, 7]"
    by (simp add: copy_def)
  show ?thesis
    using random_bytes_range [of 0 ref_lib sc0] random_bytes_range [of 1025 ref_lib sc0]
      random_bytes_range [of 3 ref_lib sc0] r c
    by simp
qed

section \<open>PASSWORD and its warning\<close>

text \<open>
  C8. PASSWORD of the empty string returns the empty string, not NULL, and appends no
  warning. PASSWORD of a non-empty string appends exactly one deprecation warning and
  returns, not NULL and with no error, the password hash of the string, which is not
  empty. For a non-NULL argument the result is never NULL.
\<close>

theorem password_warning:
  "builtinPasswordSig_evalString lib ([], False, None) sc = (([], False, None), sc)
   \<and> (pass \<noteq> [] \<longrightarrow>
        (\<exists>h. builtinPasswordSig_evalString lib (pass, False, None) sc =
               ((h, False, None),
                sc\<lparr>warnings := warnings sc @ [errDeprecatedSyntaxNoReplacement ''PASSWORD'']\<rparr>)
             \<and> h = EncodePassword lib pass \<and> h \<noteq> []))
   \<and> \<not> fst (snd (fst (builtinPasswordSig_evalString lib (pass, False, None) sc)))"
  by (simp add: builtinPasswordSig_evalString_def AppendWarning_def EncodePassword_def Let_def)



theorem password_warning_witness:
  "builtinPasswordSig_evalString ref_lib ([], False, None) sc0 = (([], False, None), sc0)
   \<and> [120 :: byte] \<noteq> []
   \<and> builtinPasswordSig_evalString ref_lib ([120], False, None) sc0 =
       (([42, 55, 66, 48, 50], False, None),
        \<lparr>warnings = [errDeprecatedSyntaxNoReplacement ''PASSWORD'']\<rparr>)"
proof -
  have "EncodePassword ref_lib [120] = [42, 55, 66, 48, 50]"
    by (simp add: EncodePassword_def Sha1Hash_def ref_lib_def ref_digest_def Sprintf_X_def
        hex_upper_def)
  then show ?thesis
    using password_warning [of ref_lib sc0 "[120]"] by (simp add: sc0_def)
qed

section \<open>NULL and errors in the arguments\<close>


text \<open>
  MD5, SHA1 and SHA2 return the argument's own NULL flag beside a forwarded error:
  MD5 of RANDOM_BYTES(0) forwards the overflow error with the flag unset.
\<close>

lemma md5_error_flag_example:
  "builtinMD5Sig_evalString ref_lib
     (fst (builtinRandomBytesSig_evalString ref_lib (0, False, None) sc0)) sc0 =
   (([], False, Some (ErrOverflow ''length'' ''random_bytes'')), sc0)"
  by (simp add: builtinMD5Sig_evalString_def builtinRandomBytesSig_evalString_def Trace_def)



section \<open>Decrypting what was encrypted\<close>

lemma length_DeriveKeyMySQL_loop:
  "length (DeriveKeyMySQL_loop key blockSize rKey rIdx) = length rKey"
  by (induction key blockSize rKey rIdx rule: DeriveKeyMySQL_loop.induct) (simp_all add: Let_def)

lemma length_DeriveKeyMySQL: "length (DeriveKeyMySQL key blockSize) = blockSize"
  by (simp add: DeriveKeyMySQL_def length_DeriveKeyMySQL_loop)

lemma length_PKCS7Pad: "length (PKCS7Pad s 16) mod 16 = 0 \<and> length (PKCS7Pad s 16) \<noteq> 0"
proof -
  have "(length s + (16 - length s mod 16)) mod 16 = 0"
    by presburger
  then show ?thesis
    by (simp add: PKCS7Pad_def Let_def)
qed

lemma PKCS7Unpad_Pad: "PKCS7Unpad (PKCS7Pad s 16) 16 = Inr s"
proof -
  define p where "p = 16 - length s mod 16"
  have p: "1 \<le> p" "p \<le> 16"
    by (simp_all add: p_def)
  have u: "unat (word_of_nat p :: byte) = p"
    using p by (simp add: unat_of_nat)
  have pad: "PKCS7Pad s 16 = s @ replicate p (word_of_nat p)"
    by (simp add: PKCS7Pad_def p_def)
  have m: "(length s + p) mod 16 = 0"
    unfolding p_def by presburger
  have l: "last (s @ replicate p (word_of_nat p :: byte)) = word_of_nat p"
    using p by (cases p) (simp_all add: last_replicate)
  have e: "\<not> list_ex (\<lambda>v. v \<noteq> (word_of_nat p :: byte))
            (take (p - 1) (drop (length s) (s @ replicate p (word_of_nat p))))"
    by (auto simp add: list_ex_iff dest: in_set_takeD)
  show ?thesis
    using p u m l e unfolding pad PKCS7Unpad_def Let_def
    by simp
qed

lemma CryptBlocks_roundtrip:
  assumes inv: "\<And>b. length b = 16 \<Longrightarrow> length (E b) = 16 \<and> D (E b) = b"
  shows "length src mod 16 = 0 \<Longrightarrow>
           length (CryptBlocks E 16 src) = length src
           \<and> CryptBlocks D 16 (CryptBlocks E 16 src) = src"
proof (induction src rule: length_induct)
  case (1 src)
  show ?case
  proof (cases "src = []")
    case True
    then show ?thesis
      by (simp add: CryptBlocks.simps)
  next
    case False
    with "1.prems" have len: "16 \<le> length src"
      by (cases "length src < 16") auto
    let ?b = "take 16 src" and ?r = "drop 16 src"
    have b: "length ?b = 16"
      using len by simp
    have r: "length ?r < length src" "length ?r mod 16 = 0"
      using len "1.prems" by (simp_all add: mod_diff_eq [symmetric] le_mod_geq [symmetric])
    from "1.IH" [rule_format, OF r] have ih: "length (CryptBlocks E 16 ?r) = length ?r
      \<and> CryptBlocks D 16 (CryptBlocks E 16 ?r) = ?r" .
    have enc: "CryptBlocks E 16 src = E ?b @ CryptBlocks E 16 ?r"
      using False by (subst CryptBlocks.simps) simp
    have eb: "length (E ?b) = 16" "D (E ?b) = ?b"
      using inv [OF b] by simp_all
    have dec: "CryptBlocks D 16 (E ?b @ CryptBlocks E 16 ?r) =
        D (E ?b) @ CryptBlocks D 16 (CryptBlocks E 16 ?r)"
      using eb by (subst CryptBlocks.simps) auto
    show ?thesis
      using enc dec eb ih len by simp
  qed
qed


lemma AESDecrypt_AESEncrypt:
  assumes lib: "aes_block_inverse lib" and key: "length key = 16"
  shows "\<exists>c. AESEncryptWithECB lib s key = (c, None) \<and> AESDecryptWithECB lib c key = (s, None)"
proof -
  let ?data = "PKCS7Pad s 16"
  let ?c = "CryptBlocks (aes_Encrypt lib key) 16 ?data"
  have inv: "length (aes_Encrypt lib key b) = 16 \<and> aes_Decrypt lib key (aes_Encrypt lib key b) = b"
    if "length b = 16" for b
    using lib key that by (simp add: aes_block_inverse_def)
  have n: "NewCipher key = None"
    using key by (simp add: NewCipher_def)
  have rt: "length ?c = length ?data \<and> CryptBlocks (aes_Decrypt lib key) 16 ?c = ?data"
    using length_PKCS7Pad [of s] by (intro CryptBlocks_roundtrip inv) simp_all
  have enc: "AESEncryptWithECB lib s key = (?c, None)"
    by (simp add: AESEncryptWithECB_def n)
  have dec: "AESDecryptWithECB lib ?c key = (s, None)"
    using rt length_PKCS7Pad [of s] by (simp add: AESDecryptWithECB_def n PKCS7Unpad_Pad)
  from enc dec show ?thesis
    by blast
qed

text \<open>
  C9. For every string \<open>s\<close> and key string \<open>k\<close>, AES_ENCRYPT returns a ciphertext, not NULL
  and with no error, and AES_DECRYPT of that ciphertext under \<open>k\<close> returns \<open>s\<close>, not NULL
  and with no error: ECB mode over blocks of 16 bytes, the key folded into 16 bytes by
  XOR. The AES block operations are a parameter, required to invert each other on a
  block (\<open>aes_block_inverse\<close>).
\<close>

theorem aes_decrypt_encrypt_roundtrip:
  assumes "aes_block_inverse lib"
  shows "\<exists>c. builtinAesEncryptSig_evalString lib (s, False, None) (k, False, None) sc =
               ((c, False, None), sc)
            \<and> builtinAesDecryptSig_evalString lib (c, False, None) (k, False, None) sc =
               ((s, False, None), sc)"
proof -
  let ?key = "DeriveKeyMySQL k aes128ecbBlobkSize"
  have "length ?key = 16"
    by (simp add: length_DeriveKeyMySQL aes128ecbBlobkSize_def)
  with assms obtain c where "AESEncryptWithECB lib s ?key = (c, None)"
    and "AESDecryptWithECB lib c ?key = (s, None)"
    using AESDecrypt_AESEncrypt [of lib ?key s] by blast
  then show ?thesis
    by (simp add: builtinAesEncryptSig_evalString_def builtinAesDecryptSig_evalString_def)
qed

text \<open>The stand-in block operations of the reference library invert each other.\<close>

lemma ref_decrypt_encrypt:
  "length key = length block \<Longrightarrow> ref_decrypt key (ref_encrypt key block) = block"
  unfolding ref_decrypt_def ref_encrypt_def
  by (induction key block rule: list_induct2) (simp_all add: xor.assoc)

lemma ref_lib_block_inverse: "aes_block_inverse ref_lib"
  by (simp add: aes_block_inverse_def ref_lib_def ref_decrypt_encrypt)
    (simp add: ref_encrypt_def)

theorem aes_decrypt_encrypt_roundtrip_witness:
  "aes_block_inverse ref_lib
   \<and> builtinAesEncryptSig_evalString ref_lib ([1, 2, 3], False, None) ([9, 9], False, None) sc0 =
       (([9, 12, 4, 14, 14, 14, 14, 14, 14, 14, 14, 14, 14, 14, 14, 14], False, None), sc0)
   \<and> builtinAesDecryptSig_evalString ref_lib
         ([9, 12, 4, 14, 14, 14, 14, 14, 14, 14, 14, 14, 14, 14, 14, 14], False, None)
         ([9, 9], False, None) sc0 =
       (([1, 2, 3], False, None), sc0)"
proof -
  have e: "builtinAesEncryptSig_evalString ref_lib ([1, 2, 3], False, None) ([9, 9], False, None) sc0 =
       (([9, 12, 4, 14, 14, 14, 14, 14, 14, 14, 14, 14, 14, 14, 14, 14], False, None), sc0)"
    by code_simp
  from aes_decrypt_encrypt_roundtrip [OF ref_lib_block_inverse, of "[1, 2, 3]" "[9, 9]" sc0] e
  show ?thesis
    using ref_lib_block_inverse by auto
qed

end
